theory Spec2Isabelle
  imports Complex_Main
begin

section \<open>Python values used by the engine\<close>

text \<open>
  A Python \<^verbatim>\<open>str\<close> is a sequence of Unicode code points, and \<^verbatim>\<open>len\<close>, slicing,
  \<^verbatim>\<open>rfind\<close> and \<^verbatim>\<open>strip\<close> all count code points. A string is therefore a list of
  code points (natural numbers), not a list of bytes: the separator U+3002 is one element.
\<close>

type_synonym pystr = "nat list"

definition ascii :: "string \<Rightarrow> pystr" where
  "ascii s = map of_char s"

text \<open>
  A bound of a slice \<^verbatim>\<open>s[i:j]\<close> on a sequence of length \<open>n\<close>: a negative bound counts
  from the end, and every bound is clamped into \<open>0..n\<close>.
\<close>

definition slice_bound :: "nat \<Rightarrow> int \<Rightarrow> nat" where
  "slice_bound n i = (if i < 0 then nat (max 0 (int n + i)) else min n (nat i))"

definition py_slice :: "'a list \<Rightarrow> int \<Rightarrow> int \<Rightarrow> 'a list" where
  "py_slice s i j =
     (let lo = slice_bound (length s) i; hi = slice_bound (length s) j
      in take (hi - lo) (drop lo s))"

text \<open>
  \<^verbatim>\<open>s.rfind(sub)\<close>: the highest index at which \<open>sub\<close> occurs in \<open>s\<close>, and \<open>-1\<close> when
  it does not occur.
\<close>

definition rfind :: "pystr \<Rightarrow> pystr \<Rightarrow> int" where
  "rfind s sub =
     (case filter (\<lambda>i. take (length sub) (drop i s) = sub) (rev [0..<Suc (length s)]) of
        [] \<Rightarrow> - 1
      | i # _ \<Rightarrow> int i)"

text \<open>
  The code points for which \<^verbatim>\<open>str.isspace\<close> holds; \<^verbatim>\<open>str.strip()\<close> without an
  argument removes exactly these from both ends.
\<close>

definition isspace :: "nat \<Rightarrow> bool" where
  "isspace c \<longleftrightarrow>
     (9 \<le> c \<and> c \<le> 13) \<or> (28 \<le> c \<and> c \<le> 32) \<or> c = 133 \<or> c = 160 \<or> c = 5760 \<or>
     (8192 \<le> c \<and> c \<le> 8202) \<or> c = 8232 \<or> c = 8233 \<or> c = 8239 \<or> c = 8287 \<or> c = 12288"

definition strip :: "pystr \<Rightarrow> pystr" where
  "strip s = rev (dropWhile isspace (rev (dropWhile isspace s)))"

section \<open>The chunker: \<^verbatim>\<open>_split_text\<close>\<close>

text \<open>
  The boundary markers, in the order the source tries them:
  U+3002, U+FF01, U+FF1F, two newlines, one newline, full stop, exclamation mark,
  question mark.
\<close>

definition separators :: "pystr list" where
  "separators = [ [12290], [65281], [65311], [10, 10], [10], [46], [33], [63] ]"

text \<open>
  The \<^verbatim>\<open>for sep in [...]\<close> loop with its \<^verbatim>\<open>break\<close>: the first separator whose last
  occurrence lies beyond \<open>chunk_size // 2\<close> shortens the chunk to end just after that
  position; with no such separator the chunk is kept.
\<close>

fun snap :: "pystr list \<Rightarrow> int \<Rightarrow> pystr \<Rightarrow> pystr" where
  "snap [] chunk_size chunk = chunk"
| "snap (sep # seps) chunk_size chunk =
     (let last_sep = rfind chunk sep
      in if last_sep > chunk_size div 2 then py_slice chunk 0 (last_sep + 1)
         else snap seps chunk_size chunk)"

text \<open>The chunk taken by one iteration of the \<^verbatim>\<open>while\<close> loop that begins at \<open>start\<close>.\<close>

definition next_chunk :: "pystr \<Rightarrow> int \<Rightarrow> int \<Rightarrow> pystr" where
  "next_chunk text chunk_size start =
     (let end = start + chunk_size;
          chunk = py_slice text start end
      in if end < int (length text) then snap separators chunk_size chunk else chunk)"

text \<open>
  The \<^verbatim>\<open>while start < len(text)\<close> loop. Nothing in the source bounds the number of
  iterations, so the loop is a partial function: \<open>None\<close> is the loop that never exits.
\<close>

partial_function (option) split_loop ::
  "pystr \<Rightarrow> int \<Rightarrow> int \<Rightarrow> int \<Rightarrow> pystr list \<Rightarrow> pystr list option" where
  "split_loop text chunk_size chunk_overlap start chunks =
     (if start < int (length text)
      then split_loop text chunk_size chunk_overlap
             (start + int (length (next_chunk text chunk_size start)) - chunk_overlap)
             (chunks @ [strip (next_chunk text chunk_size start)])
      else Some chunks)"

definition split_text :: "pystr \<Rightarrow> int \<Rightarrow> int \<Rightarrow> pystr list option" where
  "split_text text chunk_size chunk_overlap =
     (if int (length text) \<le> chunk_size then Some [text]
      else map_option (filter (\<lambda>c. strip c \<noteq> []))
             (split_loop text chunk_size chunk_overlap 0 []))"

section \<open>The identity assigner: \<^verbatim>\<open>_get_doc_id\<close>\<close>

text \<open>
  \<^verbatim>\<open>str(n)\<close> for an integer: its decimal digits, most significant first, after a minus
  sign when it is negative. Code point 48 is the digit zero, 45 the minus sign.
\<close>

function digits :: "nat \<Rightarrow> pystr" where
  "digits n = (if n < 10 then [48 + n] else digits (n div 10) @ [48 + n mod 10])"
  by pat_completeness auto
termination
  by (relation "measure (\<lambda>n. n)") auto

declare digits.simps [simp del]

definition str_int :: "int \<Rightarrow> pystr" where
  "str_int i = (if i < 0 then 45 # digits (nat (- i)) else digits (nat i))"

text \<open>
  \<^verbatim>\<open>hashlib.md5(file_path.encode()).hexdigest()\<close> is the standard library's; the
  digest function is a parameter here. The id is its first eight characters, an
  underscore (code point 95) and the chunk index in decimal.
\<close>

definition get_doc_id :: "(pystr \<Rightarrow> pystr) \<Rightarrow> pystr \<Rightarrow> int \<Rightarrow> pystr" where
  "get_doc_id md5_hexdigest file_path chunk_index =
     (let hash_val = py_slice (md5_hexdigest file_path) 0 8
      in hash_val @ [95] @ str_int chunk_index)"

definition hexdigit :: "nat \<Rightarrow> bool" where
  "hexdigit c \<longleftrightarrow> (48 \<le> c \<and> c \<le> 57) \<or> (97 \<le> c \<and> c \<le> 102)"

section \<open>Similarity scores\<close>

text \<open>
  Distances and scores are Python floats. A float operation returns the exact result
  rounded to a representable number; that rounding is the parameter \<open>fl\<close>, of which the
  theorems assume no more than monotonicity and that it leaves the few constants they
  name unchanged. Exact real arithmetic is the instance \<open>fl = (\<lambda>x. x)\<close>.
\<close>

definition similarity :: "(real \<Rightarrow> real) \<Rightarrow> real \<Rightarrow> real" where
  "similarity fl distance = max 0 (fl (1 - fl (distance / 2)))"

text \<open>
  \<^verbatim>\<open>round(x, 4)\<close>: the multiple of \<open>1/10000\<close> nearest to \<open>x\<close>, a tie going to the even
  multiple, returned as a float.
\<close>

definition round_half_even :: "real \<Rightarrow> int" where
  "round_half_even x =
     (let f = \<lfloor>x\<rfloor>
      in if x - of_int f < 1 / 2 then f
         else if 1 / 2 < x - of_int f then f + 1
         else if even f then f else f + 1)"

definition round4 :: "(real \<Rightarrow> real) \<Rightarrow> real \<Rightarrow> real" where
  "round4 fl x = fl (of_int (round_half_even (x * 10000)) / 10000)"

section \<open>Collaborators\<close>

text \<open>An exception of class \<^verbatim>\<open>Exception\<close>, with the text \<^verbatim>\<open>str(e)\<close> gives for it.\<close>

datatype exn = Exception (exn_str: pystr)

text \<open>A metadata dictionary: keys are strings, values strings or integers.\<close>

datatype mval = MStr pystr | MInt int

type_synonym meta = "(pystr \<times> mval) list"

definition meta_get :: "meta \<Rightarrow> string \<Rightarrow> mval option" where
  "meta_get m key = map_of m (ascii key)"

text \<open>One piece returned by the document loader: \<^verbatim>\<open>{"text": ..., "metadata": ...}\<close>.\<close>

record raw_chunk =
  raw_text :: pystr
  raw_metadata :: meta

text \<open>One neighbour returned by the store for a query, with its cosine distance.\<close>

record hit =
  hit_document :: pystr
  hit_metadata :: meta
  hit_distance :: real

text \<open>
  The loader, the embedding model and the vector store are reached through the calls
  below. Each may raise (\<open>Inl\<close>); a call on the store takes the store's state \<open>'s\<close> and
  returns the state it leaves behind, also when it raises. \<open>'v\<close> is the type of an
  embedding vector. \<^verbatim>\<open>_get_embedding_model()\<close> returns the model, that is its
  \<^verbatim>\<open>encode(...).tolist()\<close>; \<^verbatim>\<open>Path(p).name\<close> is \<open>path_name\<close>.
\<close>

record ('s, 'v) env =
  load_document :: "pystr \<Rightarrow> exn + raw_chunk list"
  get_embedding_model :: "exn + (pystr list \<Rightarrow> exn + 'v list)"
  md5_hexdigest :: "pystr \<Rightarrow> pystr"
  path_name :: "pystr \<Rightarrow> pystr"
  float_round :: "real \<Rightarrow> real"
  get_collection :: "'s \<Rightarrow> (exn + unit) \<times> 's"
  coll_count :: "'s \<Rightarrow> (exn + int) \<times> 's"
  coll_get :: "'s \<Rightarrow> (exn + (pystr \<times> meta) list) \<times> 's"
  coll_delete :: "pystr list \<Rightarrow> 's \<Rightarrow> (exn + unit) \<times> 's"
  coll_add :: "pystr list \<Rightarrow> 'v list \<Rightarrow> pystr list \<Rightarrow> meta list \<Rightarrow> 's \<Rightarrow> (exn + unit) \<times> 's"
  coll_query :: "'v list \<Rightarrow> int \<Rightarrow> 's \<Rightarrow> (exn + hit list) \<times> 's"

text \<open>The two values \<^verbatim>\<open>index_document\<close> reads from the loaded configuration.\<close>

record config =
  chunk_size :: int
  chunk_overlap :: int

section \<open>The query engine: \<^verbatim>\<open>query\<close>\<close>

record query_result =
  res_text :: pystr
  res_metadata :: meta
  res_similarity :: real

text \<open>
  The loop over the neighbours the store returned: a neighbour is kept when its
  similarity reaches the threshold, and the similarity it is reported with is rounded.
\<close>

definition collect_results :: "(real \<Rightarrow> real) \<Rightarrow> real \<Rightarrow> hit list \<Rightarrow> query_result list" where
  "collect_results fl score_threshold results =
     map (\<lambda>h. \<lparr>res_text = hit_document h, res_metadata = hit_metadata h,
               res_similarity = round4 fl (similarity fl (hit_distance h))\<rparr>)
         (filter (\<lambda>h. similarity fl (hit_distance h) \<ge> score_threshold) results)"

text \<open>The body of the \<^verbatim>\<open>try\<close> block of \<^verbatim>\<open>query\<close>.\<close>

definition query_try ::
  "('s, 'v) env \<Rightarrow> pystr \<Rightarrow> int \<Rightarrow> real \<Rightarrow> 's \<Rightarrow> (exn + query_result list) \<times> 's" where
  "query_try E query_text top_k score_threshold s =
     (case get_embedding_model E of
        Inl e \<Rightarrow> (Inl e, s)
      | Inr model \<Rightarrow>
     (case model [query_text] of
        Inl e \<Rightarrow> (Inl e, s)
      | Inr query_embedding \<Rightarrow>
     (case get_collection E s of
        (Inl e, s1) \<Rightarrow> (Inl e, s1)
      | (Inr _, s1) \<Rightarrow>
     (case coll_count E s1 of
        (Inl e, s2) \<Rightarrow> (Inl e, s2)
      | (Inr total_docs, s2) \<Rightarrow>
         if total_docs = 0 then (Inr [], s2)
         else
           (let actual_top_k = min top_k total_docs
            in case coll_query E query_embedding actual_top_k s2 of
                 (Inl e, s3) \<Rightarrow> (Inl e, s3)
               | (Inr results, s3) \<Rightarrow>
                   (Inr (collect_results (float_round E) score_threshold results), s3))))))"

text \<open>
  The message of the \<^verbatim>\<open>RuntimeError\<close> that \<^verbatim>\<open>query\<close> raises: five CJK code points
  (U+67E5 U+8A62 U+5931 U+6557 U+FF1A) before the text of the cause.
\<close>

definition query_failed :: "pystr" where
  "query_failed = [26597, 35426, 22833, 25943, 65306]"

definition query ::
  "('s, 'v) env \<Rightarrow> pystr \<Rightarrow> int \<Rightarrow> real \<Rightarrow> 's \<Rightarrow> (exn + query_result list) \<times> 's" where
  "query E query_text top_k score_threshold s =
     (if strip query_text = [] then (Inr [], s)
      else case query_try E query_text top_k score_threshold s of
             (Inl e, s') \<Rightarrow> (Inl (Exception (query_failed @ exn_str e)), s')
           | (Inr output, s') \<Rightarrow> (Inr output, s'))"

section \<open>Deleting a document: \<^verbatim>\<open>delete_document\<close>\<close>

record delete_result =
  del_success :: bool
  del_deleted :: int
  del_message :: pystr

text \<open>
  The messages: U+522A U+9664 U+5931 U+6557 U+FF1A before the cause of a failure;
  U+5DF2 U+522A U+9664, a space, the count, a space and U+500B U+7247 U+6BB5 for a
  deletion; U+627E U+4E0D U+5230 U+5C0D U+61C9 U+6587 U+4EF6 when nothing matched.
\<close>

definition delete_failed :: "pystr" where
  "delete_failed = [21034, 38500, 22833, 25943, 65306]"

definition deleted_message :: "int \<Rightarrow> pystr" where
  "deleted_message n = [24050, 21034, 38500, 32] @ str_int n @ [32, 20491, 29255, 27573]"

definition not_found_message :: "pystr" where
  "not_found_message = [25214, 19981, 21040, 23565, 25033, 25991, 20214]"

text \<open>
  A stored chunk belongs to the document when its \<^verbatim>\<open>source\<close> is the path or its
  \<^verbatim>\<open>filename\<close> is the path's last component.
\<close>

definition matches_document :: "('s, 'v) env \<Rightarrow> pystr \<Rightarrow> meta \<Rightarrow> bool" where
  "matches_document E file_path m \<longleftrightarrow>
     meta_get m ''source'' = Some (MStr file_path) \<or>
     meta_get m ''filename'' = Some (MStr (path_name E file_path))"

definition delete_document :: "('s, 'v) env \<Rightarrow> pystr \<Rightarrow> 's \<Rightarrow> delete_result \<times> 's" where
  "delete_document E file_path s =
     (case get_collection E s of
        (Inl e, s1) \<Rightarrow>
          (\<lparr>del_success = False, del_deleted = 0, del_message = delete_failed @ exn_str e\<rparr>, s1)
      | (Inr _, s1) \<Rightarrow>
     (case coll_get E s1 of
        (Inl e, s2) \<Rightarrow>
          (\<lparr>del_success = False, del_deleted = 0, del_message = delete_failed @ exn_str e\<rparr>, s2)
      | (Inr results, s2) \<Rightarrow>
          (let ids_to_delete = map fst (filter (\<lambda>(i, m). matches_document E file_path m) results)
           in if ids_to_delete \<noteq> [] then
                (case coll_delete E ids_to_delete s2 of
                   (Inl e, s3) \<Rightarrow>
                     (\<lparr>del_success = False, del_deleted = 0,
                       del_message = delete_failed @ exn_str e\<rparr>, s3)
                 | (Inr _, s3) \<Rightarrow>
                     (\<lparr>del_success = True, del_deleted = int (length ids_to_delete),
                       del_message = deleted_message (int (length ids_to_delete))\<rparr>, s3))
              else
                (\<lparr>del_success = True, del_deleted = 0, del_message = not_found_message\<rparr>, s2))))"

section \<open>The index manager: \<^verbatim>\<open>index_document\<close>\<close>

record chunk =
  chunk_text :: pystr
  chunk_metadata :: meta

record index_result =
  success :: bool
  chunks :: int
  message :: pystr

text \<open>
  The two nested loops that build \<^verbatim>\<open>all_chunks\<close>: every raw chunk is split, and each
  piece that is not blank is kept with the metadata of the raw chunk it came from.
  The result is \<open>None\<close> when a call of the chunker does not return.
\<close>

fun split_all :: "int \<Rightarrow> int \<Rightarrow> raw_chunk list \<Rightarrow> chunk list option" where
  "split_all csize coverlap [] = Some []"
| "split_all csize coverlap (raw # raws) =
     (case split_text (raw_text raw) csize coverlap of
        None \<Rightarrow> None
      | Some sub_chunks \<Rightarrow>
     (case split_all csize coverlap raws of
        None \<Rightarrow> None
      | Some rest \<Rightarrow>
          Some (map (\<lambda>sub. \<lparr>chunk_text = sub, chunk_metadata = raw_metadata raw\<rparr>)
                    (filter (\<lambda>sub. strip sub \<noteq> []) sub_chunks) @ rest)))"

text \<open>
  \<^verbatim>\<open>if progress_callback: progress_callback(msg)\<close>. The callback is the caller's; it
  is given a message and may raise.
\<close>

definition call_callback :: "(pystr \<Rightarrow> exn option) option \<Rightarrow> pystr \<Rightarrow> exn option" where
  "call_callback progress_callback msg =
     (case progress_callback of None \<Rightarrow> None | Some f \<Rightarrow> f msg)"

text \<open>
  The texts of the source, as code points. Loading: U+6B63 U+5728 U+8F09 U+5165 U+6587
  U+4EF6 U+FF1A and the file name. Embedding: U+6B63 U+5728 U+751F U+6210 U+5D4C U+5165
  U+5411 U+91CF U+FF08 U+5171, a space, the number of chunks, a space, U+500B U+7247
  U+6BB5 U+FF09 and three full stops. Empty document: U+6587 U+4EF6 U+5167 U+5BB9 U+70BA
  U+7A7A. Success: U+6210 U+529F U+7D22 U+5F15, a space, the number of chunks, a space,
  U+500B U+7247 U+6BB5. Failure: U+7D22 U+5F15 U+5931 U+6557 U+FF1A and the cause.
\<close>

definition loading_message :: "pystr \<Rightarrow> pystr" where
  "loading_message name = [27491, 22312, 36617, 20837, 25991, 20214, 65306] @ name"

definition embedding_message :: "int \<Rightarrow> pystr" where
  "embedding_message n =
     [27491, 22312, 29983, 25104, 23884, 20837, 21521, 37327, 65288, 20849, 32] @ str_int n
     @ [32, 20491, 29255, 27573, 65289, 46, 46, 46]"

definition empty_message :: "pystr" where
  "empty_message = [25991, 20214, 20839, 23481, 28858, 31354]"

definition indexed_message :: "int \<Rightarrow> pystr" where
  "indexed_message n = [25104, 21151, 32034, 24341, 32] @ str_int n @ [32, 20491, 29255, 27573]"

definition index_failed :: "pystr" where
  "index_failed = [32034, 24341, 22833, 25943, 65306]"

text \<open>
  The body of the \<^verbatim>\<open>try\<close> block. \<open>Inl e\<close> is the exception \<open>e\<close> leaving the block,
  next to the state of the store at that moment; \<open>None\<close> is a body that never finishes
  because the chunker does not return.
\<close>

definition index_document_try ::
  "('s, 'v) env \<Rightarrow> config \<Rightarrow> pystr \<Rightarrow> (pystr \<Rightarrow> exn option) option \<Rightarrow> 's
     \<Rightarrow> ((exn + index_result) \<times> 's) option" where
  "index_document_try E cfg file_path progress_callback s =
     (case call_callback progress_callback (loading_message (path_name E file_path)) of
        Some e \<Rightarrow> Some (Inl e, s)
      | None \<Rightarrow>
     (case load_document E file_path of
        Inl e \<Rightarrow> Some (Inl e, s)
      | Inr raw_chunks \<Rightarrow>
     (case split_all (chunk_size cfg) (chunk_overlap cfg) raw_chunks of
        None \<Rightarrow> None
      | Some all_chunks \<Rightarrow>
         if all_chunks = [] then
           Some (Inr \<lparr>success = False, chunks = 0, message = empty_message\<rparr>, s)
         else
     (case call_callback progress_callback (embedding_message (int (length all_chunks))) of
        Some e \<Rightarrow> Some (Inl e, s)
      | None \<Rightarrow>
     (case get_embedding_model E of
        Inl e \<Rightarrow> Some (Inl e, s)
      | Inr model \<Rightarrow>
     (let texts = map chunk_text all_chunks
      in case model texts of
        Inl e \<Rightarrow> Some (Inl e, s)
      | Inr embeddings \<Rightarrow>
     (case delete_document E file_path s of
        (_, s1) \<Rightarrow>
     (case get_collection E s1 of
        (Inl e, s2) \<Rightarrow> Some (Inl e, s2)
      | (Inr _, s2) \<Rightarrow>
     (let ids = map (\<lambda>i. get_doc_id (md5_hexdigest E) file_path (int i)) [0..<length all_chunks];
          metadatas = map chunk_metadata all_chunks
      in case coll_add E ids embeddings texts metadatas s2 of
           (Inl e, s3) \<Rightarrow> Some (Inl e, s3)
         | (Inr _, s3) \<Rightarrow>
             Some (Inr \<lparr>success = True, chunks = int (length all_chunks),
                        message = indexed_message (int (length all_chunks))\<rparr>, s3))))))))))"

text \<open>
  \<^verbatim>\<open>index_document\<close>: the body under its \<^verbatim>\<open>except Exception\<close> handler. The result
  type still has room for an exception (\<open>Inl\<close>) that would reach the caller. The chunk
  size and overlap are read from the configuration before the \<^verbatim>\<open>try\<close> block and are
  taken here as already loaded.
\<close>

definition index_document ::
  "('s, 'v) env \<Rightarrow> config \<Rightarrow> pystr \<Rightarrow> (pystr \<Rightarrow> exn option) option \<Rightarrow> 's
     \<Rightarrow> ((exn + index_result) \<times> 's) option" where
  "index_document E cfg file_path progress_callback s =
     (case index_document_try E cfg file_path progress_callback s of
        None \<Rightarrow> None
      | Some (Inl e, s') \<Rightarrow>
          Some (Inr \<lparr>success = False, chunks = 0, message = index_failed @ exn_str e\<rparr>, s')
      | Some (Inr r, s') \<Rightarrow> Some (Inr r, s'))"

section \<open>A collection held in memory\<close>

text \<open>
  The vector store as the engine uses it: an ordered collection of rows, one per id.
  Listing returns every id with its metadata, deletion removes the rows with the given
  ids, and insertion refuses argument lists of different lengths and ids repeated within
  one call. What insertion does with an id the collection already holds differs between
  stores, so it is a parameter: the old row is kept, the old row is replaced, or the
  call raises and inserts nothing.
\<close>

record 'v row =
  row_id :: pystr
  row_embedding :: 'v
  row_document :: pystr
  row_metadata :: meta

datatype add_policy = KeepExisting | ReplaceExisting | RejectExisting

definition mem_get_collection :: "'v row list \<Rightarrow> (exn + unit) \<times> 'v row list" where
  "mem_get_collection c = (Inr (), c)"

definition mem_get :: "'v row list \<Rightarrow> (exn + (pystr \<times> meta) list) \<times> 'v row list" where
  "mem_get c = (Inr (map (\<lambda>r. (row_id r, row_metadata r)) c), c)"

definition mem_delete :: "pystr list \<Rightarrow> 'v row list \<Rightarrow> (exn + unit) \<times> 'v row list" where
  "mem_delete ids c = (Inr (), filter (\<lambda>r. row_id r \<notin> set ids) c)"

definition make_rows :: "pystr list \<Rightarrow> 'v list \<Rightarrow> pystr list \<Rightarrow> meta list \<Rightarrow> 'v row list" where
  "make_rows ids embeddings documents metadatas =
     map (\<lambda>(i, e, d, m). \<lparr>row_id = i, row_embedding = e, row_document = d, row_metadata = m\<rparr>)
         (zip ids (zip embeddings (zip documents metadatas)))"

definition mem_add ::
  "add_policy \<Rightarrow> pystr list \<Rightarrow> 'v list \<Rightarrow> pystr list \<Rightarrow> meta list \<Rightarrow> 'v row list
     \<Rightarrow> (exn + unit) \<times> 'v row list" where
  "mem_add policy ids embeddings documents metadatas c =
     (if length embeddings \<noteq> length ids \<or> length documents \<noteq> length ids
         \<or> length metadatas \<noteq> length ids
      then (Inl (Exception (ascii ''Unequal lengths'')), c)
      else if \<not> distinct ids then (Inl (Exception (ascii ''Duplicate ids'')), c)
      else
        (let rows = make_rows ids embeddings documents metadatas
         in case policy of
              KeepExisting \<Rightarrow>
                (Inr (), c @ filter (\<lambda>r. row_id r \<notin> set (map row_id c)) rows)
            | ReplaceExisting \<Rightarrow>
                (Inr (), filter (\<lambda>r. row_id r \<notin> set ids) c @ rows)
            | RejectExisting \<Rightarrow>
                if list_ex (\<lambda>r. row_id r \<in> set ids) c
                then (Inl (Exception (ascii ''Id already exists'')), c)
                else (Inr (), c @ rows)))"

text \<open>An environment whose store is such a collection.\<close>

definition memory_store :: "add_policy \<Rightarrow> ('v row list, 'v) env \<Rightarrow> bool" where
  "memory_store policy E \<longleftrightarrow>
     get_collection E = mem_get_collection \<and> coll_get E = mem_get \<and>
     coll_delete E = mem_delete \<and> coll_add E = mem_add policy"

text \<open>The ids of the rows stored for a source, in the order of the collection.\<close>

definition ids_of_source :: "pystr \<Rightarrow> 'v row list \<Rightarrow> pystr list" where
  "ids_of_source file_path c =
     map row_id (filter (\<lambda>r. meta_get (row_metadata r) ''source'' = Some (MStr file_path)) c)"

text \<open>
  Counting and querying such a collection. The distance between two vectors is a
  parameter; a query returns the rows nearest to the first query vector, nearest first,
  and refuses a number of results that is not positive.
\<close>

definition mem_count :: "'v row list \<Rightarrow> (exn + int) \<times> 'v row list" where
  "mem_count c = (Inr (int (length c)), c)"

definition mem_query ::
  "('v \<Rightarrow> 'v \<Rightarrow> real) \<Rightarrow> 'v list \<Rightarrow> int \<Rightarrow> 'v row list \<Rightarrow> (exn + hit list) \<times> 'v row list" where
  "mem_query distance_of query_embeddings n_results c =
     (case query_embeddings of
        [] \<Rightarrow> (Inl (Exception (ascii ''No query embedding'')), c)
      | q # _ \<Rightarrow>
          if n_results \<le> 0 then (Inl (Exception (ascii ''Number of results not positive'')), c)
          else
            (Inr (map (\<lambda>r. \<lparr>hit_document = row_document r, hit_metadata = row_metadata r,
                             hit_distance = distance_of q (row_embedding r)\<rparr>)
                      (take (nat n_results) (sort_key (\<lambda>r. distance_of q (row_embedding r)) c))), c))"

text \<open>
  What deleting a document leaves of such a collection: the rows whose id is not the id
  of a row that belongs to the document.
\<close>

definition purged :: "('s, 'v) env \<Rightarrow> pystr \<Rightarrow> 'v row list \<Rightarrow> 'v row list" where
  "purged E file_path c =
     filter (\<lambda>r. row_id r \<notin> set (map row_id
                (filter (\<lambda>r. matches_document E file_path (row_metadata r)) c))) c"

section \<open>An example environment\<close>

text \<open>
  A small environment on which the operations can be run: the loader knows the one
  document \<^verbatim>\<open>a.md\<close>, whose text is \<^verbatim>\<open>hello\<close>, and raises for any other path; the
  embedding of a text is its length, and the distance of two embeddings is their
  difference, at most 2; the digest is the MD5 digest of \<^verbatim>\<open>a.md\<close>; floats are exact.
\<close>

definition example_env :: "add_policy \<Rightarrow> (real row list, real) env" where
  "example_env policy =
     \<lparr>load_document =
        (\<lambda>p. if p = ascii ''a.md''
              then Inr [\<lparr>raw_text = ascii ''hello'',
                         raw_metadata = [(ascii ''source'', MStr (ascii ''a.md'')),
                                         (ascii ''filename'', MStr (ascii ''a.md'')),
                                         (ascii ''page'', MInt 0)]\<rparr>]
              else Inl (Exception (ascii ''unsupported format''))),
      get_embedding_model = Inr (\<lambda>texts. Inr (map (\<lambda>t. real (length t)) texts)),
      md5_hexdigest = (\<lambda>p. ascii ''b00a1cca9c08ec62a1adc3bac23e10f5''),
      path_name = (\<lambda>p. p),
      float_round = (\<lambda>x. x),
      get_collection = mem_get_collection,
      coll_count = mem_count,
      coll_get = mem_get,
      coll_delete = mem_delete,
      coll_add = mem_add policy,
      coll_query = mem_query (\<lambda>a b. min 2 \<bar>a - b\<bar>)\<rparr>"

text \<open>
  A collection of one row whose embedding lies at distance 0.199918 from the embedding
  of a text of five characters, that is at similarity 0.900041.
\<close>

definition example_collection :: "real row list" where
  "example_collection =
     [\<lparr>row_id = ascii ''b00a1cca_0'', row_embedding = 5199918 / 1000000,
       row_document = ascii ''hello'',
       row_metadata = [(ascii ''source'', MStr (ascii ''a.md''))]\<rparr>]"

section \<open>Properties of the chunker\<close>

lemmas chunker_defs =
  split_text_def ascii_def next_chunk_def py_slice_def slice_bound_def separators_def
  rfind_def strip_def isspace_def Let_def

lemma length_py_slice_le: "length (py_slice s i j) \<le> length s - slice_bound (length s) i"
  by (simp add: py_slice_def Let_def)

lemma length_snap_le: "length (snap seps cs c) \<le> length c"
  by (induction seps) (simp_all add: Let_def py_slice_def slice_bound_def)

lemma length_next_chunk_le:
  "length (next_chunk t cs start) \<le> length t - slice_bound (length t) start"
  unfolding next_chunk_def Let_def
  using length_snap_le [of separators cs "py_slice t start (start + cs)"]
        length_py_slice_le [of t start "start + cs"]
  by (simp split: if_splits)

text \<open>
  A chunk never reaches past the end of the text, so with an overlap of at least one
  the next start stays before the end of the text.
\<close>

lemma advance_stays_inside:
  assumes "start < int (length t)" and "1 \<le> ov"
  shows "start + int (length (next_chunk t cs start)) - ov < int (length t)"
proof -
  have "int (length (next_chunk t cs start)) \<le> int (length t) - (if start < 0 then 0 else start)"
    using length_next_chunk_le [of t cs start] assms(1)
    by (auto simp: slice_bound_def split: if_splits)
  with assms show ?thesis by (auto split: if_splits)
qed

lemma split_loop_never_exits:
  assumes "split_loop t cs ov start acc = Some r"
  shows "\<not> (start < int (length t) \<and> 1 \<le> ov)"
proof (rule split_loop.raw_induct
    [where P = "\<lambda>t cs ov start acc r. \<not> (start < int (length t) \<and> 1 \<le> ov)", OF _ assms],
    goal_cases)
  case (1 loop t cs ov start acc r)
  show ?case
  proof
    assume h: "start < int (length t) \<and> 1 \<le> ov"
    with 1(2) have "loop t cs ov (start + int (length (next_chunk t cs start)) - ov)
             (acc @ [strip (next_chunk t cs start)]) = Some r"
      by simp
    from 1(1) [OF this] advance_stays_inside [of start t ov cs] h
    show False by simp
  qed
qed

text \<open>
  C1. The claim is that the chunker terminates whenever \<open>chunk_size > 0\<close> and
  \<open>0 \<le> chunk_overlap < chunk_size\<close>, each iteration advancing \<open>start\<close> by at least one.
  The loop of the source does the opposite as soon as the overlap is positive: for every
  text longer than \<open>chunk_size\<close> and every overlap of at least one, \<open>start\<close> never reaches
  the end of the text and the chunker does not return.
\<close>

theorem split_text_diverges:
  assumes "0 < cs" and "1 \<le> ov" and "cs < int (length t)"
  shows "split_text t cs ov = None"
proof (cases "split_loop t cs ov 0 []")
  case None
  with assms show ?thesis by (simp add: split_text_def)
next
  case (Some r)
  from split_loop_never_exits [OF this] assms show ?thesis by simp
qed

theorem split_text_diverges_witness:
  "(0::int) < 2 \<and> (1::int) \<le> 1 \<and> (2::int) < int (length (ascii ''aaa''))
   \<and> split_text (ascii ''aaa'') 2 1 = None"
  using split_text_diverges [of 2 1 "ascii ''aaa''"] by (simp add: ascii_def)

text \<open>
  With no overlap every iteration takes at least one character and moves \<open>start\<close>
  forward, so the loop exits and the chunker returns.
\<close>

lemma length_snap_pos:
  assumes "c \<noteq> []" and "0 < cs"
  shows "snap seps cs c \<noteq> []"
  using assms
proof (induction seps)
  case Nil
  then show ?case by simp
next
  case (Cons sep seps)
  show ?case
  proof (cases "rfind c sep > cs div 2")
    case True
    with Cons.prems have "0 < rfind c sep + 1" by linarith
    with True Cons.prems(1) show ?thesis
      by (auto simp: Let_def py_slice_def slice_bound_def)
  next
    case False
    with Cons show ?thesis by (simp add: Let_def)
  qed
qed

lemma next_chunk_nonempty:
  assumes "0 \<le> start" and "start < int (length t)" and "0 < cs"
  shows "next_chunk t cs start \<noteq> []"
proof -
  have "py_slice t start (start + cs) \<noteq> []"
    using assms by (auto simp: py_slice_def slice_bound_def Let_def)
  with assms(3) show ?thesis
    by (simp add: next_chunk_def Let_def length_snap_pos)
qed

lemma split_loop_returns:
  assumes "0 < cs" and "ov \<le> 0" and "0 \<le> start"
  shows "\<exists>r. split_loop t cs ov start acc = Some r"
  using assms(3)
proof (induction "nat (int (length t) - start)" arbitrary: start acc rule: less_induct)
  case less
  show ?case
  proof (cases "start < int (length t)")
    case False
    then show ?thesis by (subst split_loop.simps) simp
  next
    case True
    let ?next = "start + int (length (next_chunk t cs start)) - ov"
    have "next_chunk t cs start \<noteq> []"
      using less.prems True assms(1) by (rule next_chunk_nonempty)
    then have adv: "start < ?next" using assms(2) by (cases "next_chunk t cs start") auto
    then have "nat (int (length t) - ?next) < nat (int (length t) - start)" using True by linarith
    moreover have "0 \<le> ?next" using adv less.prems by linarith
    ultimately obtain r where
      "split_loop t cs ov ?next (acc @ [strip (next_chunk t cs start)]) = Some r"
      using less.hyps by blast
    with True show ?thesis by (subst split_loop.simps) simp
  qed
qed

lemma split_text_returns_without_overlap:
  assumes "0 < cs" and "ov \<le> 0"
  shows "\<exists>r. split_text t cs ov = Some r"
  using split_loop_returns [OF assms, of 0 t "[]"] by (auto simp: split_text_def)

text \<open>
  C7. A text no longer than \<open>chunk_size\<close> is returned as the only chunk, unchanged.
\<close>

theorem split_text_short:
  assumes "int (length t) \<le> cs"
  shows "split_text t cs ov = Some [t]"
  using assms by (simp add: split_text_def)

theorem split_text_short_witness:
  "int (length (ascii '' short text '')) \<le> 500
   \<and> split_text (ascii '' short text '') 500 50 = Some [ascii '' short text '']"
  using split_text_short [of "ascii '' short text ''" 500 50] by (simp add: ascii_def)

lemma dropWhile_unchanged: "xs = [] \<or> \<not> P (hd xs) \<Longrightarrow> dropWhile P xs = xs"
  by (cases xs) auto

lemma strip_no_outer_space:
  "strip s = [] \<or> (\<not> isspace (hd (strip s)) \<and> \<not> isspace (last (strip s)))"
proof (cases "strip s = []")
  case True
  then show ?thesis by simp
next
  case False
  define t where "t = dropWhile isspace s"
  define d where "d = dropWhile isspace (rev t)"
  have u: "strip s = rev d" by (simp add: strip_def t_def d_def)
  with False have dne: "d \<noteq> []" by simp
  then have "\<not> isspace (hd d)" unfolding d_def by (rule hd_dropWhile)
  then have l: "\<not> isspace (last (strip s))" using u dne by (simp add: last_rev)
  have "rev t = takeWhile isspace (rev t) @ d" by (simp add: d_def)
  then have "rev (rev t) = rev (takeWhile isspace (rev t) @ d)" by simp
  then have tt: "t = rev d @ rev (takeWhile isspace (rev t))" by simp
  have tne: "t \<noteq> []" using dne d_def by auto
  then have "\<not> isspace (hd t)" unfolding t_def by (rule hd_dropWhile)
  moreover have "hd t = hd (rev d)" using tt dne by (metis hd_append2 rev_is_Nil_conv)
  ultimately have "\<not> isspace (hd (strip s))" using u by simp
  with l show ?thesis by simp
qed

lemma strip_fixed:
  assumes "c = [] \<or> (\<not> isspace (hd c) \<and> \<not> isspace (last c))"
  shows "strip c = c"
proof (cases "c = []")
  case True
  then show ?thesis by (simp add: strip_def)
next
  case False
  with assms have h: "\<not> isspace (hd c)" and l: "\<not> isspace (last c)" by simp_all
  have a: "dropWhile isspace c = c" using h by (simp add: dropWhile_unchanged)
  have "hd (rev c) = last c" using False by (simp add: hd_rev)
  then have "dropWhile isspace (rev c) = rev c" using l by (simp add: dropWhile_unchanged)
  with a show ?thesis by (simp add: strip_def)
qed

lemma strip_idem: "strip (strip s) = strip s"
  using strip_no_outer_space [of s] by (rule strip_fixed)

lemma split_loop_stripped:
  assumes "split_loop t cs ov start acc = Some r"
  shows "(\<forall>c\<in>set acc. strip c = c) \<longrightarrow> (\<forall>c\<in>set r. strip c = c)"
proof (rule split_loop.raw_induct
    [where P = "\<lambda>t cs ov start acc r. (\<forall>c\<in>set acc. strip c = c) \<longrightarrow> (\<forall>c\<in>set r. strip c = c)",
     OF _ assms], goal_cases)
  case (1 loop t cs ov start acc r)
  show ?case
  proof (cases "start < int (length t)")
    case True
    with 1(2) have "loop t cs ov (start + int (length (next_chunk t cs start)) - ov)
             (acc @ [strip (next_chunk t cs start)]) = Some r"
      by simp
    from 1(1) [OF this] show ?thesis by (simp add: strip_idem)
  next
    case False
    with 1(2) show ?thesis by simp
  qed
qed

text \<open>
  C8. The claim is that every string the chunker returns is stripped and not empty, for
  every input. It fails on the short-circuit path, which returns the text as it is: a
  text of two spaces comes back as the single chunk of two spaces.
\<close>

theorem split_text_blank_counterexample:
  "split_text (ascii ''  '') 500 50 = Some [ascii ''  ''] \<and> strip (ascii ''  '') = []
   \<and> split_text (ascii '' a '') 500 50 = Some [ascii '' a ''] \<and> isspace (hd (ascii '' a ''))"
  by (simp add: chunker_defs)

text \<open>
  C8, amended. For a text longer than \<open>chunk_size\<close>, every string the chunker returns
  is not empty and has no whitespace at either end.
\<close>

theorem split_text_stripped:
  assumes "cs < int (length t)"
    and "split_text t cs ov = Some r"
    and "c \<in> set r"
  shows "c \<noteq> [] \<and> \<not> isspace (hd c) \<and> \<not> isspace (last c)"
proof -
  from assms(1,2) obtain acc where
    l: "split_loop t cs ov 0 [] = Some acc" and
    r: "r = filter (\<lambda>c. strip c \<noteq> []) acc"
    by (auto simp: split_text_def)
  from split_loop_stripped [OF l] have "\<forall>c\<in>set acc. strip c = c" by simp
  with r assms(3) have "strip c = c" and "strip c \<noteq> []" by auto
  with strip_no_outer_space [of c] show ?thesis by simp
qed

theorem split_text_stripped_witness:
  "(4::int) < int (length (ascii ''ab.  cd. efg'')) \<and>
   split_text (ascii ''ab.  cd. efg'') 4 0 = Some [ascii ''ab.'', ascii ''cd.'', ascii ''efg''] \<and>
   ascii ''cd.'' \<in> set [ascii ''ab.'', ascii ''cd.'', ascii ''efg''] \<and>
   ascii ''cd.'' \<noteq> [] \<and> \<not> isspace (hd (ascii ''cd.'')) \<and> \<not> isspace (last (ascii ''cd.''))"
proof -
  have a: "(4::int) < int (length (ascii ''ab.  cd. efg''))" by (simp add: ascii_def)
  have b: "split_text (ascii ''ab.  cd. efg'') 4 0 = Some [ascii ''ab.'', ascii ''cd.'', ascii ''efg'']"
    by (simp add: chunker_defs split_loop.simps)
  have c: "ascii ''cd.'' \<in> set [ascii ''ab.'', ascii ''cd.'', ascii ''efg'']" by simp
  from split_text_stripped [OF a b c] a b c show ?thesis by simp
qed

section \<open>Properties of the identity assigner\<close>

lemma digits_nonempty: "digits n \<noteq> []"
  by (subst digits.simps) simp

lemma digits_range: "c \<in> set (digits n) \<Longrightarrow> 48 \<le> c \<and> c \<le> 57"
proof (induction n rule: digits.induct)
  case (1 n)
  show ?case
  proof (cases "n < 10")
    case True
    with "1.prems" show ?thesis by (subst (asm) digits.simps) simp
  next
    case False
    from "1.prems" have "c \<in> set (digits (n div 10)) \<or> c = 48 + n mod 10"
      using False by (subst (asm) digits.simps) auto
    with "1.IH" [OF False] show ?thesis by auto
  qed
qed

lemma digits_inj: "digits n = digits m \<Longrightarrow> n = m"
proof (induction n arbitrary: m rule: digits.induct)
  case (1 n)
  show ?case
  proof (cases "n < 10")
    case True
    then have n: "digits n = [48 + n]" by (subst digits.simps) simp
    show ?thesis
    proof (cases "m < 10")
      case True
      then have "digits m = [48 + m]" by (subst digits.simps) simp
      with n "1.prems" show ?thesis by simp
    next
      case False
      then have "digits m = digits (m div 10) @ [48 + m mod 10]" by (subst digits.simps) simp
      with n "1.prems" digits_nonempty [of "m div 10"] show ?thesis by simp
    qed
  next
    case False
    then have n: "digits n = digits (n div 10) @ [48 + n mod 10]" by (subst digits.simps) simp
    show ?thesis
    proof (cases "m < 10")
      case True
      then have "digits m = [48 + m]" by (subst digits.simps) simp
      with n "1.prems" digits_nonempty [of "n div 10"] show ?thesis by simp
    next
      case m: False
      then have "digits m = digits (m div 10) @ [48 + m mod 10]" by (subst digits.simps) simp
      with n "1.prems" have "digits (n div 10) = digits (m div 10)" and "n mod 10 = m mod 10"
        by simp_all
      with "1.IH" [OF False, of "m div 10"] have "n div 10 = m div 10" and "n mod 10 = m mod 10"
        by simp_all
      then show ?thesis by (metis div_mult_mod_eq)
    qed
  qed
qed

lemma str_int_inj: "str_int i = str_int j \<Longrightarrow> i = j"
proof -
  assume h: "str_int i = str_int j"
  have nominus: "\<And>n. hd (digits n) \<noteq> 45"
  proof -
    fix n
    have "hd (digits n) \<in> set (digits n)" using digits_nonempty by simp
    from digits_range [OF this] show "hd (digits n) \<noteq> 45" by simp
  qed
  show ?thesis
  proof (cases "i < 0")
    case True
    show ?thesis
    proof (cases "j < 0")
      case j: True
      with True h have "digits (nat (- i)) = digits (nat (- j))" by (simp add: str_int_def)
      from digits_inj [OF this] True j show ?thesis by simp
    next
      case False
      with True h have "45 # digits (nat (- i)) = digits (nat j)" by (simp add: str_int_def)
      then have "hd (digits (nat j)) = 45" by (metis list.sel(1))
      with nominus show ?thesis by simp
    qed
  next
    case False
    show ?thesis
    proof (cases "j < 0")
      case True
      with False h have "digits (nat i) = 45 # digits (nat (- j))" by (simp add: str_int_def)
      then have "hd (digits (nat i)) = 45" by simp
      with nominus show ?thesis by simp
    next
      case j: False
      with False h have "digits (nat i) = digits (nat j)" by (simp add: str_int_def)
      from digits_inj [OF this] False j show ?thesis by simp
    qed
  qed
qed

text \<open>
  C10. The id of a chunk is a function of the source path and the ordinal alone: the
  first eight characters of the path's digest, an underscore and the ordinal in decimal.
  For a digest of 32 hexadecimal characters the prefix is eight hexadecimal characters,
  and two different ordinals of one source never get the same id.
\<close>

theorem get_doc_id_form_injective:
  assumes "length (md5 p) = 32" and "\<forall>c\<in>set (md5 p). hexdigit c"
  shows "get_doc_id md5 p i = take 8 (md5 p) @ ascii ''_'' @ str_int i
         \<and> length (take 8 (md5 p)) = 8 \<and> (\<forall>c\<in>set (take 8 (md5 p)). hexdigit c)
         \<and> (i \<noteq> j \<longrightarrow> get_doc_id md5 p i \<noteq> get_doc_id md5 p j)"
proof -
  have f: "get_doc_id md5 p k = take 8 (md5 p) @ ascii ''_'' @ str_int k" for k
    using assms(1) by (simp add: get_doc_id_def py_slice_def slice_bound_def ascii_def)
  have "i \<noteq> j \<longrightarrow> get_doc_id md5 p i \<noteq> get_doc_id md5 p j"
    using str_int_inj [of i j] by (auto simp: f)
  moreover have "\<forall>c\<in>set (take 8 (md5 p)). hexdigit c"
    using assms(2) by (meson in_set_takeD)
  ultimately show ?thesis using assms(1) f by simp
qed

text \<open>The witness uses the MD5 digest of the path \<^verbatim>\<open>a.md\<close>.\<close>

theorem get_doc_id_form_injective_witness:
  "length (ascii ''b00a1cca9c08ec62a1adc3bac23e10f5'') = 32
   \<and> get_doc_id (\<lambda>p. ascii ''b00a1cca9c08ec62a1adc3bac23e10f5'') (ascii ''a.md'') 12
       = ascii ''b00a1cca_12''
   \<and> get_doc_id (\<lambda>p. ascii ''b00a1cca9c08ec62a1adc3bac23e10f5'') (ascii ''a.md'') 12
       \<noteq> get_doc_id (\<lambda>p. ascii ''b00a1cca9c08ec62a1adc3bac23e10f5'') (ascii ''a.md'') 3"
proof -
  have c: "str_int 12 = ascii ''12''" and d: "str_int 3 = ascii ''3''"
    by (simp_all add: str_int_def digits.simps ascii_def)
  have e: "get_doc_id (\<lambda>p. ascii ''b00a1cca9c08ec62a1adc3bac23e10f5'') (ascii ''a.md'') 3
             = ascii ''b00a1cca_3''"
    by (simp add: get_doc_id_def py_slice_def slice_bound_def d) (simp add: ascii_def)
  from get_doc_id_form_injective
    [of "\<lambda>p. ascii ''b00a1cca9c08ec62a1adc3bac23e10f5''" "ascii ''a.md''" 12 3] c e
  show ?thesis
    by (simp add: ascii_def hexdigit_def)
qed

section \<open>Properties of the similarity score\<close>

lemma round_half_even_mono_int:
  assumes "of_int k - 1 / 2 < x"
  shows "k \<le> round_half_even x"
proof -
  have f: "k - 1 \<le> \<lfloor>x\<rfloor>" using assms by linarith
  show ?thesis
  proof (cases "k \<le> \<lfloor>x\<rfloor>")
    case True
    then show ?thesis by (auto simp: round_half_even_def Let_def)
  next
    case False
    with f have e: "\<lfloor>x\<rfloor> = k - 1" by simp
    then have "1 / 2 < x - of_int \<lfloor>x\<rfloor>" using assms by simp
    then show ?thesis using e by (simp add: round_half_even_def Let_def)
  qed
qed

lemma round_half_even_le_int:
  assumes "x \<le> of_int k"
  shows "round_half_even x \<le> k"
proof (cases "x = of_int k")
  case True
  then show ?thesis by (simp add: round_half_even_def Let_def)
next
  case False
  with assms have "x < of_int k" by simp
  then have "\<lfloor>x\<rfloor> < k" by linarith
  then show ?thesis by (auto simp: round_half_even_def Let_def)
qed

lemma similarity_bounds:
  assumes "mono fl" "fl 0 = 0" "fl 1 = 1" "0 \<le> d"
  shows "0 \<le> similarity fl d \<and> similarity fl d \<le> 1"
proof -
  have "0 \<le> d / 2" using assms(4) by simp
  then have "fl 0 \<le> fl (d / 2)" by (rule monoD [OF assms(1)])
  then have "1 - fl (d / 2) \<le> 1" using assms(2) by simp
  then have "fl (1 - fl (d / 2)) \<le> fl 1" by (rule monoD [OF assms(1)])
  then show ?thesis using assms(3) by (simp add: similarity_def)
qed

lemma round4_bounds:
  assumes "mono fl" "fl 0 = 0" "fl 1 = 1" "0 \<le> x" "x \<le> 1"
  shows "0 \<le> round4 fl x \<and> round4 fl x \<le> 1"
proof -
  have "of_int 0 - 1 / 2 < x * 10000" using assms(4) by simp
  then have a: "0 \<le> round_half_even (x * 10000)" by (rule round_half_even_mono_int)
  have "x * 10000 \<le> of_int 10000" using assms(5) by simp
  then have b: "round_half_even (x * 10000) \<le> 10000" by (rule round_half_even_le_int)
  have "(0::real) \<le> of_int (round_half_even (x * 10000)) / 10000" using a by simp
  then have lo: "fl 0 \<le> round4 fl x" unfolding round4_def by (rule monoD [OF assms(1)])
  have "(of_int (round_half_even (x * 10000)) :: real) \<le> 10000" using b by linarith
  then have "(of_int (round_half_even (x * 10000)) :: real) / 10000 \<le> 1" by simp
  then have hi: "round4 fl x \<le> fl 1" unfolding round4_def by (rule monoD [OF assms(1)])
  from lo hi assms(2,3) show ?thesis by simp
qed

text \<open>
  C5. For a float rounding that is monotone and leaves 0 and 1 unchanged, the
  similarity of distance 0 is 1 and that of distance 2 is 0, the similarity does not
  increase when the distance grows, and for a distance between 0 and 2 the similarity
  lies between 0 and 1, also after it is rounded to four decimal places.
\<close>

theorem similarity_properties:
  assumes "mono fl" and "fl 0 = 0" and "fl 1 = 1"
    and "d \<le> d'" and "0 \<le> x" and "x \<le> 2"
  shows "similarity fl 0 = 1 \<and> similarity fl 2 = 0
         \<and> similarity fl d' \<le> similarity fl d
         \<and> 0 \<le> similarity fl x \<and> similarity fl x \<le> 1
         \<and> 0 \<le> round4 fl (similarity fl x) \<and> round4 fl (similarity fl x) \<le> 1"
proof -
  have z: "similarity fl 0 = 1" using assms(2,3) by (simp add: similarity_def)
  have t: "similarity fl 2 = 0" using assms(2,3) by (simp add: similarity_def)
  have "d / 2 \<le> d' / 2" using assms(4) by simp
  then have "fl (d / 2) \<le> fl (d' / 2)" by (rule monoD [OF assms(1)])
  then have "1 - fl (d' / 2) \<le> 1 - fl (d / 2)" by simp
  then have "fl (1 - fl (d' / 2)) \<le> fl (1 - fl (d / 2))" by (rule monoD [OF assms(1)])
  then have m: "similarity fl d' \<le> similarity fl d" by (simp add: similarity_def)
  have b: "0 \<le> similarity fl x \<and> similarity fl x \<le> 1"
    using assms(1,2,3,5) by (rule similarity_bounds)
  then have "0 \<le> round4 fl (similarity fl x) \<and> round4 fl (similarity fl x) \<le> 1"
    using round4_bounds [OF assms(1,2,3)] by simp
  with z t m b show ?thesis by simp
qed

theorem similarity_properties_witness:
  "similarity (\<lambda>x. x) 0 = 1 \<and> similarity (\<lambda>x. x) 2 = 0
   \<and> (1 / 2 :: real) \<le> 1 \<and> similarity (\<lambda>x. x) 1 \<le> similarity (\<lambda>x. x) (1 / 2)
   \<and> (0::real) \<le> 3 / 2 \<and> (3 / 2 :: real) \<le> 2
   \<and> 0 \<le> similarity (\<lambda>x. x) (3 / 2) \<and> similarity (\<lambda>x. x) (3 / 2) \<le> 1
   \<and> 0 \<le> round4 (\<lambda>x. x) (similarity (\<lambda>x. x) (3 / 2))
   \<and> round4 (\<lambda>x. x) (similarity (\<lambda>x. x) (3 / 2)) \<le> 1"
proof -
  have m: "mono (\<lambda>x::real. x)" by (simp add: mono_def)
  from similarity_properties [OF m, of "1 / 2" 1 "3 / 2"] show ?thesis by simp
qed

section \<open>Properties of the query engine\<close>








section \<open>Properties of the index manager\<close>

lemmas index_defs =
  index_document_def index_document_try_def delete_document_def call_callback_def
  matches_document_def meta_get_def get_doc_id_def str_int_def digits.simps
  indexed_message_def example_env_def example_collection_def
  mem_get_collection_def mem_get_def mem_delete_def mem_add_def make_rows_def

text \<open>
  C3. When the document was loaded and the splitting of its raw chunks leaves no chunk,
  \<^verbatim>\<open>index_document\<close> returns the failure result with zero chunks and the message of
  an empty document, and the store is the one it was given: nothing was deleted and
  nothing inserted.
\<close>

theorem index_document_empty:
  assumes "call_callback cb (loading_message (path_name E p)) = None"
    and "load_document E p = Inr raws"
    and "split_all (chunk_size cfg) (chunk_overlap cfg) raws = Some []"
  shows "index_document E cfg p cb s
           = Some (Inr \<lparr>success = False, chunks = 0, message = empty_message\<rparr>, s)"
  using assms by (simp add: index_document_def index_document_try_def)

theorem index_document_empty_witness:
  "index_document
     ((example_env KeepExisting)
        \<lparr>load_document := \<lambda>p. Inr [\<lparr>raw_text = ascii ''  '', raw_metadata = []\<rparr>]\<rparr>)
     \<lparr>chunk_size = 500, chunk_overlap = 50\<rparr> (ascii ''blank.txt'') None example_collection
   = Some (Inr \<lparr>success = False, chunks = 0, message = empty_message\<rparr>, example_collection)"
proof -
  have "split_all 500 50 [\<lparr>raw_text = ascii ''  '', raw_metadata = []\<rparr>] = Some []"
    by (simp add: chunker_defs)
  with index_document_empty
    [of None "(example_env KeepExisting)
        \<lparr>load_document := \<lambda>p. Inr [\<lparr>raw_text = ascii ''  '', raw_metadata = []\<rparr>]\<rparr>"
        "ascii ''blank.txt''" "[\<lparr>raw_text = ascii ''  '', raw_metadata = []\<rparr>]"
        "\<lparr>chunk_size = 500, chunk_overlap = 50\<rparr>" example_collection]
  show ?thesis by (simp add: call_callback_def)
qed




text \<open>
  C9. When the document was loaded and split into at least one chunk and the embedding
  model cannot be obtained or its \<^verbatim>\<open>encode\<close> raises, \<^verbatim>\<open>index_document\<close> returns the
  failure result with zero chunks, and the store is the one it was given: the chunks
  indexed before are all still there.
\<close>

theorem index_document_embedding_failure:
  assumes "call_callback cb (loading_message (path_name E p)) = None"
    and "load_document E p = Inr raws"
    and "split_all (chunk_size cfg) (chunk_overlap cfg) raws = Some all_chunks"
    and "all_chunks \<noteq> []"
    and "call_callback cb (embedding_message (int (length all_chunks))) = None"
    and "get_embedding_model E = Inl e
         \<or> (\<exists>model. get_embedding_model E = Inr model \<and> model (map chunk_text all_chunks) = Inl e)"
  shows "index_document E cfg p cb s
           = Some (Inr \<lparr>success = False, chunks = 0, message = index_failed @ exn_str e\<rparr>, s)"
  using assms by (auto simp: index_document_def index_document_try_def Let_def)

theorem index_document_embedding_failure_witness:
  "index_document
     ((example_env KeepExisting)
        \<lparr>get_embedding_model := Inr (\<lambda>texts. Inl (Exception (ascii ''out of memory'')))\<rparr>)
     \<lparr>chunk_size = 500, chunk_overlap = 50\<rparr> (ascii ''a.md'') None example_collection
   = Some (Inr \<lparr>success = False, chunks = 0,
                message = index_failed @ ascii ''out of memory''\<rparr>, example_collection)"
proof -
  have "split_all 500 50
          [\<lparr>raw_text = ascii ''hello'',
            raw_metadata = [(ascii ''source'', MStr (ascii ''a.md'')),
                            (ascii ''filename'', MStr (ascii ''a.md'')),
                            (ascii ''page'', MInt 0)]\<rparr>]
        = Some [\<lparr>chunk_text = ascii ''hello'',
                 chunk_metadata = [(ascii ''source'', MStr (ascii ''a.md'')),
                            (ascii ''filename'', MStr (ascii ''a.md'')),
                            (ascii ''page'', MInt 0)]\<rparr>]"
    by (simp add: chunker_defs)
  with index_document_embedding_failure
    [of None "(example_env KeepExisting)
        \<lparr>get_embedding_model := Inr (\<lambda>texts. Inl (Exception (ascii ''out of memory'')))\<rparr>"
        "ascii ''a.md''" _ "\<lparr>chunk_size = 500, chunk_overlap = 50\<rparr>" _
        "Exception (ascii ''out of memory'')" example_collection]
  show ?thesis by (simp add: call_callback_def example_env_def)
qed

section \<open>Indexing the same source twice\<close>

lemma delete_document_memory:
  assumes "memory_store policy E"
  shows "snd (delete_document E p c) = purged E p c"
proof -
  let ?hits = "filter (\<lambda>r. matches_document E p (row_metadata r)) c"
  have f: "filter (\<lambda>(i, m). matches_document E p m) (map (\<lambda>r. (row_id r, row_metadata r)) c)
             = map (\<lambda>r. (row_id r, row_metadata r)) ?hits"
    by (induction c) auto
  show ?thesis
  proof (cases "?hits = []")
    case True
    then have "purged E p c = c" by (simp add: purged_def)
    with True assms show ?thesis
      by (simp add: delete_document_def memory_store_def mem_get_collection_def mem_get_def
                    Let_def f)
  next
    case False
    with assms show ?thesis
      by (simp add: delete_document_def memory_store_def mem_get_collection_def mem_get_def
                    mem_delete_def Let_def purged_def f o_def)
  qed
qed

lemma purged_no_match:
  "r \<in> set (purged E p c) \<Longrightarrow> \<not> matches_document E p (row_metadata r)"
  by (auto simp: purged_def)

lemma purged_unchanged:
  "\<forall>r\<in>set c. \<not> matches_document E p (row_metadata r) \<Longrightarrow> purged E p c = c"
  by (simp add: purged_def)

lemma purged_append:
  assumes "\<forall>r\<in>set A. \<not> matches_document E p (row_metadata r)"
    and "\<forall>r\<in>set B. matches_document E p (row_metadata r)"
  shows "purged E p (A @ B) = filter (\<lambda>r. row_id r \<notin> set (map row_id B)) A"
proof -
  have a: "filter (\<lambda>r. matches_document E p (row_metadata r)) A = []" using assms(1) by simp
  have b: "filter (\<lambda>r. matches_document E p (row_metadata r)) B = B" using assms(2) by simp
  have c: "filter (\<lambda>r. row_id r \<notin> set (map row_id B)) B = []" by simp
  show ?thesis unfolding purged_def filter_append a b c by simp
qed

lemma make_rows_ids:
  assumes "length es = length ids" "length ds = length ids" "length ms = length ids"
  shows "map row_id (make_rows ids es ds ms) = ids"
  using assms by (simp add: make_rows_def map_zip_map o_def split_def map_fst_zip)

lemma make_rows_metadata:
  "r \<in> set (make_rows ids es ds ms) \<Longrightarrow> row_metadata r \<in> set ms"
  by (auto simp: make_rows_def dest!: set_zip_rightD)

lemma kept_ids_fresh:
  "\<forall>x\<in>set (D :: 'v row list).
     row_id x \<notin> set (map row_id (filter (\<lambda>r. row_id r \<notin> set (map row_id D)) rows))"
  by (clarsimp simp: image_iff, metis)

lemma add_after_purge:
  assumes D: "\<forall>r\<in>set D. \<not> matches_document E p (row_metadata r)"
    and M: "\<forall>m\<in>set ms. matches_document E p m"
  shows "mem_add pol ids es ds ms (purged E p (snd (mem_add pol ids es ds ms D)))
           = mem_add pol ids es ds ms D"
proof (cases "length es = length ids \<and> length ds = length ids \<and> length ms = length ids
              \<and> distinct ids")
  case False
  then have "snd (mem_add pol ids es ds ms D) = D" by (auto simp: mem_add_def)
  with D show ?thesis by (simp add: purged_unchanged)
next
  case True
  let ?rows = "make_rows ids es ds ms"
  have ids: "map row_id ?rows = ids" using True by (simp add: make_rows_ids)
  have rows: "\<forall>r\<in>set ?rows. matches_document E p (row_metadata r)"
    using M make_rows_metadata by blast
  show ?thesis
  proof (cases pol)
    case KeepExisting
    let ?new = "filter (\<lambda>r. row_id r \<notin> set (map row_id D)) ?rows"
    have s1: "snd (mem_add pol ids es ds ms D) = D @ ?new"
      using True KeepExisting by (simp add: mem_add_def Let_def)
    have "\<forall>r\<in>set ?new. matches_document E p (row_metadata r)" using rows by simp
    from purged_append [OF D this]
    have "purged E p (D @ ?new) = filter (\<lambda>r. row_id r \<notin> set (map row_id ?new)) D" .
    also have "\<dots> = D" by (rule filter_True) (rule kept_ids_fresh)
    finally show ?thesis using s1 by simp
  next
    case ReplaceExisting
    let ?old = "filter (\<lambda>r. row_id r \<notin> set ids) D"
    have s1: "snd (mem_add pol ids es ds ms D) = ?old @ ?rows"
      using True ReplaceExisting by (simp add: mem_add_def Let_def)
    have "\<forall>r\<in>set ?old. \<not> matches_document E p (row_metadata r)" using D by simp
    from purged_append [OF this rows]
    have "purged E p (?old @ ?rows) = filter (\<lambda>r. row_id r \<notin> set (map row_id ?rows)) ?old" .
    also have "\<dots> = ?old" by (simp add: ids)
    finally have "purged E p (snd (mem_add pol ids es ds ms D)) = ?old" using s1 by simp
    then show ?thesis using True ReplaceExisting by (simp add: mem_add_def Let_def)
  next
    case RejectExisting
    show ?thesis
    proof (cases "list_ex (\<lambda>r. row_id r \<in> set ids) D")
      case clash: True
      then have "snd (mem_add pol ids es ds ms D) = D"
        using True RejectExisting by (simp add: mem_add_def Let_def)
      with D show ?thesis by (simp add: purged_unchanged)
    next
      case False
      then have s1: "snd (mem_add pol ids es ds ms D) = D @ ?rows"
        using True RejectExisting by (simp add: mem_add_def Let_def)
      from purged_append [OF D rows]
      have "purged E p (D @ ?rows) = filter (\<lambda>r. row_id r \<notin> set (map row_id ?rows)) D" .
      also have "\<dots> = D" using False by (simp add: ids list_ex_iff)
      finally show ?thesis using s1 by simp
    qed
  qed
qed

lemma mem_add_distinct:
  assumes "distinct (map row_id D)"
  shows "distinct (map row_id (snd (mem_add pol ids es ds ms D)))"
proof (cases "length es = length ids \<and> length ds = length ids \<and> length ms = length ids
              \<and> distinct ids")
  case False
  then have "snd (mem_add pol ids es ds ms D) = D" by (auto simp: mem_add_def)
  with assms show ?thesis by simp
next
  case True
  let ?rows = "make_rows ids es ds ms"
  have ids: "map row_id ?rows = ids" using True by (simp add: make_rows_ids)
  then have dr: "distinct (map row_id ?rows)" using True by simp
  show ?thesis
  proof (cases pol)
    case KeepExisting
    have "distinct (map row_id (filter (\<lambda>r. row_id r \<notin> set (map row_id D)) ?rows))"
      using dr by (rule distinct_map_filter)
    moreover have "set (map row_id D)
        \<inter> set (map row_id (filter (\<lambda>r. row_id r \<notin> set (map row_id D)) ?rows)) = {}"
      using kept_ids_fresh [of D ?rows] by auto
    ultimately have "distinct (map row_id
        (D @ filter (\<lambda>r. row_id r \<notin> set (map row_id D)) ?rows))"
      using assms by simp
    then show ?thesis using True KeepExisting by (simp add: mem_add_def Let_def)
  next
    case ReplaceExisting
    have "distinct (map row_id (filter (\<lambda>r. row_id r \<notin> set ids) D))"
      using assms by (rule distinct_map_filter)
    then show ?thesis using True ReplaceExisting dr ids
      by (auto simp: mem_add_def Let_def)
  next
    case RejectExisting
    then show ?thesis using True assms dr ids
      by (auto simp: mem_add_def Let_def list_ex_iff)
  qed
qed

lemma purged_distinct: "distinct (map row_id c) \<Longrightarrow> distinct (map row_id (purged E p c))"
  unfolding purged_def by (rule distinct_map_filter)

lemma split_all_metadata:
  assumes "split_all cs ov raws = Some all_chunks" and "c \<in> set all_chunks"
  shows "\<exists>raw\<in>set raws. chunk_metadata c = raw_metadata raw"
  using assms
proof (induction raws arbitrary: all_chunks)
  case Nil
  then show ?case by simp
next
  case (Cons raw raws)
  from Cons.prems(1) obtain subs rest where
    s: "split_text (raw_text raw) cs ov = Some subs" and
    r: "split_all cs ov raws = Some rest" and
    a: "all_chunks = map (\<lambda>sub. \<lparr>chunk_text = sub, chunk_metadata = raw_metadata raw\<rparr>)
                    (filter (\<lambda>sub. strip sub \<noteq> []) subs) @ rest"
    by (auto split: option.splits)
  from Cons.prems(2) a consider "chunk_metadata c = raw_metadata raw" | "c \<in> set rest" by auto
  then show ?case
  proof cases
    case 1
    then show ?thesis by simp
  next
    case 2
    from Cons.IH [OF r this] show ?thesis by auto
  qed
qed

lemma mem_add_rows:
  "set (snd (mem_add pol ids es ds ms D)) \<subseteq> set D \<union> set (make_rows ids es ds ms)"
  by (cases pol) (auto simp: mem_add_def Let_def)

lemma make_rows_id:
  "r \<in> set (make_rows ids es ds ms) \<Longrightarrow> row_id r \<in> set ids"
  by (auto simp: make_rows_def dest!: set_zip_leftD)

lemma index_document_early:
  assumes "\<And>s. index_document_try E cfg p cb s = Some (x, s)"
    and "\<forall>r. x = Inr r \<longrightarrow> \<not> success r"
    and "index_document E cfg p cb S0 = Some (out1, S1)"
  shows "index_document E cfg p cb S1 = Some (out1, S1) \<and> S1 = S0
         \<and> (\<forall>r. out1 = Inr r \<longrightarrow> \<not> success r)"
  using assms(3) assms(1) [of S0] assms(1) [of S1] assms(2)
  by (cases x) (auto simp: index_document_def)

text \<open>
  C2. The store is a collection held in memory, under any of the three ways of treating
  an id that is already present, and the loader gives every chunk of the document
  metadata that names the document. When indexing a source on the store \<open>S0\<close> returns
  the result \<open>out1\<close> and leaves the store \<open>S1\<close>, indexing the same source again on
  \<open>S1\<close> returns the same result and leaves exactly \<open>S1\<close>: the same chunks and the same
  ids are stored for the source. Ids that were pairwise different in \<open>S0\<close> are pairwise
  different in \<open>S1\<close>, and after a successful run every chunk stored for the source has
  the id of an ordinal of the run, so nothing of an older generation is left.
\<close>

theorem reindex_idempotent:
  assumes mem: "memory_store policy E"
    and loader: "\<forall>raws. load_document E p = Inr raws \<longrightarrow>
                   (\<forall>raw\<in>set raws. matches_document E p (raw_metadata raw))"
    and run1: "index_document E cfg p cb S0 = Some (out1, S1)"
  shows "index_document E cfg p cb S1 = Some (out1, S1)
         \<and> (distinct (map row_id S0) \<longrightarrow> distinct (map row_id S1))
         \<and> (\<forall>r. out1 = Inr r \<and> success r \<longrightarrow>
               set (ids_of_source p S1)
                 \<subseteq> (\<lambda>i. get_doc_id (md5_hexdigest E) p (int i)) ` {0..<nat (chunks r)})"
proof (cases "call_callback cb (loading_message (path_name E p))")
    case (Some e)
    then have "\<And>s. index_document_try E cfg p cb s = Some (Inl e, s)"
      by (simp add: index_document_try_def)
    from index_document_early [OF this _ run1] show ?thesis by auto
  next
    case cb1: None
    show ?thesis
    proof (cases "load_document E p")
      case (Inl e)
      with cb1 have "\<And>s. index_document_try E cfg p cb s = Some (Inl e, s)"
        by (simp add: index_document_try_def)
      from index_document_early [OF this _ run1] show ?thesis by auto
    next
      case (Inr raws)
      show ?thesis
      proof (cases "split_all (chunk_size cfg) (chunk_overlap cfg) raws")
        case None
        with cb1 Inr have "index_document E cfg p cb S0 = None"
          by (simp add: index_document_def index_document_try_def)
        with run1 show ?thesis by simp
      next
        case (Some all_chunks)
        show ?thesis
        proof (cases "all_chunks = []")
          case True
          with cb1 Inr Some have "\<And>s. index_document_try E cfg p cb s
              = Some (Inr \<lparr>success = False, chunks = 0, message = empty_message\<rparr>, s)"
            by (simp add: index_document_try_def)
          from index_document_early [OF this _ run1] show ?thesis by auto
        next
          case nonempty: False
          show ?thesis
          proof (cases "call_callback cb (embedding_message (int (length all_chunks)))")
            case (Some e)
            with cb1 Inr \<open>split_all (chunk_size cfg) (chunk_overlap cfg) raws = Some all_chunks\<close>
              nonempty
            have "\<And>s. index_document_try E cfg p cb s = Some (Inl e, s)"
              by (simp add: index_document_try_def)
            from index_document_early [OF this _ run1] show ?thesis by auto
          next
            case cb2: None
            note sp = \<open>split_all (chunk_size cfg) (chunk_overlap cfg) raws = Some all_chunks\<close>
            show ?thesis
            proof (cases "get_embedding_model E")
              case (Inl e)
              with cb1 \<open>load_document E p = Inr raws\<close> sp nonempty cb2
              have "\<And>s. index_document_try E cfg p cb s = Some (Inl e, s)"
                by (simp add: index_document_try_def)
              from index_document_early [OF this _ run1] show ?thesis by auto
            next
              case model: (Inr model)
              show ?thesis
              proof (cases "model (map chunk_text all_chunks)")
                case (Inl e)
                with cb1 \<open>load_document E p = Inr raws\<close> sp nonempty cb2 model
                have "\<And>s. index_document_try E cfg p cb s = Some (Inl e, s)"
                  by (simp add: index_document_try_def)
                from index_document_early [OF this _ run1] show ?thesis by auto
              next
                case emb: (Inr embeddings)
                let ?ids = "map (\<lambda>i. get_doc_id (md5_hexdigest E) p (int i)) [0..<length all_chunks]"
                let ?texts = "map chunk_text all_chunks"
                let ?metas = "map chunk_metadata all_chunks"
                let ?add = "\<lambda>s. mem_add policy ?ids embeddings ?texts ?metas (purged E p s)"
                let ?ok = "\<lparr>success = True, chunks = int (length all_chunks),
                             message = indexed_message (int (length all_chunks))\<rparr>"
                let ?G = "\<lambda>a. case a of
                            (Inl e, s3) \<Rightarrow>
                              Some (Inr \<lparr>success = False, chunks = 0,
                                         message = index_failed @ exn_str e\<rparr>, s3)
                          | (Inr u, s3) \<Rightarrow> Some (Inr ?ok, s3)"
                have run: "index_document E cfg p cb s = ?G (?add s)" for s
                proof -
                  have d: "delete_document E p s = (fst (delete_document E p s), purged E p s)"
                    using delete_document_memory [OF mem, of p s] by (metis prod.collapse)
                  have g: "get_collection E = mem_get_collection" and a: "coll_add E = mem_add policy"
                    using mem by (simp_all add: memory_store_def)
                  show ?thesis
                    unfolding index_document_def index_document_try_def
                    using cb1 \<open>load_document E p = Inr raws\<close> sp nonempty cb2 model emb
                    by (subst d) (simp add: g a mem_get_collection_def Let_def
                                  split: prod.splits sum.splits)
                qed
                have clean: "\<forall>r\<in>set (purged E p S0). \<not> matches_document E p (row_metadata r)"
                  using purged_no_match by blast
                have metas: "\<forall>m\<in>set ?metas. matches_document E p m"
                proof
                  fix m assume "m \<in> set ?metas"
                  then obtain c where c: "c \<in> set all_chunks" and m: "m = chunk_metadata c" by auto
                  from split_all_metadata [OF sp c] obtain raw where
                    "raw \<in> set raws" "chunk_metadata c = raw_metadata raw" by blast
                  with loader \<open>load_document E p = Inr raws\<close> m
                  show "matches_document E p m" by simp
                qed
                have s1: "S1 = snd (?add S0)" and o1: "?G (?add S0) = Some (out1, S1)"
                  using run1 run [of S0] by (auto split: prod.splits sum.splits)
                have "?add S1 = ?add S0"
                  unfolding s1 using add_after_purge [OF clean metas] by simp
                then have again: "index_document E cfg p cb S1 = Some (out1, S1)"
                  using run [of S1] o1 by simp
                have dist: "distinct (map row_id S0) \<longrightarrow> distinct (map row_id S1)"
                  unfolding s1 by (simp add: purged_distinct mem_add_distinct)
                have gen: "set (ids_of_source p S1)
                    \<subseteq> (\<lambda>i. get_doc_id (md5_hexdigest E) p (int i)) ` {0..<nat (chunks r)}"
                  if r: "out1 = Inr r" "success r" for r
                proof
                  fix i assume "i \<in> set (ids_of_source p S1)"
                  then obtain row where row: "row \<in> set S1" "row_id row = i"
                    "meta_get (row_metadata row) ''source'' = Some (MStr p)"
                    by (auto simp: ids_of_source_def)
                  then have "matches_document E p (row_metadata row)"
                    by (simp add: matches_document_def)
                  with clean have "row \<notin> set (purged E p S0)" by blast
                  with row(1) mem_add_rows [of policy ?ids embeddings ?texts ?metas "purged E p S0"]
                  have "row \<in> set (make_rows ?ids embeddings ?texts ?metas)"
                    unfolding s1 by blast
                  from make_rows_id [OF this] row(2) have "i \<in> set ?ids" by simp
                  moreover have "chunks r = int (length all_chunks)"
                    using o1 r by (auto split: prod.splits sum.splits)
                  ultimately show "i \<in> (\<lambda>i. get_doc_id (md5_hexdigest E) p (int i)) ` {0..<nat (chunks r)}"
                    by auto
                qed
                from again dist gen show ?thesis by blast
              qed
            qed
          qed
        qed
      qed
    qed
  qed

theorem reindex_idempotent_witness:
  "index_document (example_env KeepExisting) \<lparr>chunk_size = 500, chunk_overlap = 50\<rparr>
     (ascii ''a.md'') None example_collection
   = Some (Inr \<lparr>success = True, chunks = 1, message = indexed_message 1\<rparr>,
           [\<lparr>row_id = ascii ''b00a1cca_0'', row_embedding = 5, row_document = ascii ''hello'',
             row_metadata = [(ascii ''source'', MStr (ascii ''a.md'')),
                             (ascii ''filename'', MStr (ascii ''a.md'')),
                             (ascii ''page'', MInt 0)]\<rparr>])
   \<and> index_document (example_env KeepExisting) \<lparr>chunk_size = 500, chunk_overlap = 50\<rparr>
       (ascii ''a.md'') None
       [\<lparr>row_id = ascii ''b00a1cca_0'', row_embedding = 5, row_document = ascii ''hello'',
         row_metadata = [(ascii ''source'', MStr (ascii ''a.md'')),
                         (ascii ''filename'', MStr (ascii ''a.md'')),
                         (ascii ''page'', MInt 0)]\<rparr>]
   = Some (Inr \<lparr>success = True, chunks = 1, message = indexed_message 1\<rparr>,
           [\<lparr>row_id = ascii ''b00a1cca_0'', row_embedding = 5, row_document = ascii ''hello'',
             row_metadata = [(ascii ''source'', MStr (ascii ''a.md'')),
                             (ascii ''filename'', MStr (ascii ''a.md'')),
                             (ascii ''page'', MInt 0)]\<rparr>])"
proof -
  have m: "memory_store KeepExisting (example_env KeepExisting)"
    by (simp add: memory_store_def example_env_def)
  have l: "\<forall>raws. load_document (example_env KeepExisting) (ascii ''a.md'') = Inr raws \<longrightarrow>
             (\<forall>raw\<in>set raws.
                matches_document (example_env KeepExisting) (ascii ''a.md'') (raw_metadata raw))"
    by (auto simp: example_env_def matches_document_def meta_get_def)
  have r: "index_document (example_env KeepExisting) \<lparr>chunk_size = 500, chunk_overlap = 50\<rparr>
     (ascii ''a.md'') None example_collection
   = Some (Inr \<lparr>success = True, chunks = 1, message = indexed_message 1\<rparr>,
           [\<lparr>row_id = ascii ''b00a1cca_0'', row_embedding = 5, row_document = ascii ''hello'',
             row_metadata = [(ascii ''source'', MStr (ascii ''a.md'')),
                             (ascii ''filename'', MStr (ascii ''a.md'')),
                             (ascii ''page'', MInt 0)]\<rparr>])"
    by (simp add: index_defs chunker_defs)
  from reindex_idempotent [OF m l r] r show ?thesis by simp
qed

end
